theory Spec2Isabelle
  imports Complex_Main "HOL-Library.AList" "HOL-Library.Sublist"
begin

section \<open>Configuration (config.ts)\<close>

text \<open>
  Times are milliseconds since the epoch (\<open>Date.now()\<close>, \<open>Date.getTime()\<close>): integers
  far below \<open>2^53\<close>, on which JavaScript's arithmetic is exact, so \<open>int\<close> is their model.
\<close>

section \<open>JavaScript numbers\<close>

text \<open>
  \<open>uptime_seconds\<close> is whatever number the request body holds: the route checks only
  \<open>typeof body.uptime_seconds === 'number'\<close>. A JavaScript number is an IEEE 754
  binary64 value: a finite one is a rational, and there are the two infinities (a JSON
  literal such as \<open>1e999\<close> parses to one) and NaN. Comparison is exact; addition is the
  exact sum rounded to the nearest binary64 value, ties to the even significand.
\<close>

datatype jsnum = Finite rat | PosInf | NegInf | NaN

definition roundHalfEven :: "rat \<Rightarrow> int" where
  "roundHalfEven x =
     (let f = \<lfloor>x\<rfloor>; d = x - of_int f
      in if d < 1 / 2 then f else if 1 / 2 < d then f + 1 else if even f then f else f + 1)"

text \<open>
  The spacing of binary64 values around \<open>x\<close> is a power of two. Below \<open>2^53\<close> it is
  \<open>2^-j\<close> for the first \<open>j\<close> with \<open>2^52 \<le> |x| * 2^j\<close>, and never less than \<open>2^-1074\<close>
  (\<open>binadeDown 1074 0 x\<close>); from \<open>2^53\<close> on it is \<open>2^k\<close> for the first \<open>k\<close> with
  \<open>|x| < 2^53 * 2^k\<close> (\<open>binadeUp 972 0 x\<close>; \<open>k = 972\<close> is reached from \<open>2^1024\<close> on,
  where every value rounds to an infinity).
\<close>

fun binadeDown :: "nat \<Rightarrow> nat \<Rightarrow> rat \<Rightarrow> nat" where
  "binadeDown 0 j x = j"
| "binadeDown (Suc n) j x = (if \<bar>x\<bar> * 2 ^ j < 2 ^ 52 then binadeDown n (Suc j) x else j)"

fun binadeUp :: "nat \<Rightarrow> nat \<Rightarrow> rat \<Rightarrow> nat" where
  "binadeUp 0 k x = k"
| "binadeUp (Suc n) k x = (if 2 ^ 53 * 2 ^ k \<le> \<bar>x\<bar> then binadeUp n (Suc k) x else k)"

definition toDouble :: "rat \<Rightarrow> jsnum" where
  "toDouble x =
     (if \<bar>x\<bar> < 2 ^ 53 then
        (let j = binadeDown 1074 0 x
         in Finite (of_int (roundHalfEven (x * 2 ^ j)) / 2 ^ j))
      else
        (let k = binadeUp 972 0 x;
             r = of_int (roundHalfEven (x / 2 ^ k)) * 2 ^ k
         in if 2 ^ 1024 \<le> \<bar>r\<bar> then (if 0 < x then PosInf else NegInf) else Finite r))"

text \<open>JavaScript's \<open>x + y\<close> and \<open>x > y\<close> on numbers.\<close>

fun jsAdd :: "jsnum \<Rightarrow> jsnum \<Rightarrow> jsnum" where
  "jsAdd (Finite a) (Finite b) = toDouble (a + b)"
| "jsAdd NaN y = NaN"
| "jsAdd x NaN = NaN"
| "jsAdd PosInf NegInf = NaN"
| "jsAdd NegInf PosInf = NaN"
| "jsAdd PosInf y = PosInf"
| "jsAdd x PosInf = PosInf"
| "jsAdd NegInf y = NegInf"
| "jsAdd x NegInf = NegInf"

fun jsGreater :: "jsnum \<Rightarrow> jsnum \<Rightarrow> bool" where
  "jsGreater (Finite a) (Finite b) = (b < a)"
| "jsGreater NaN y = False"
| "jsGreater x NaN = False"
| "jsGreater NegInf y = False"
| "jsGreater x PosInf = False"
| "jsGreater PosInf y = True"
| "jsGreater x NegInf = True"

datatype HeartbeatMode = EMERGENCY | IDLE | SLEEP

definition HEARTBEAT_INTERVALS :: "HeartbeatMode \<Rightarrow> int" where
  "HEARTBEAT_INTERVALS m = (case m of EMERGENCY \<Rightarrow> 5000 | IDLE \<Rightarrow> 30000 | SLEEP \<Rightarrow> 900000)"

definition ZOMBIE_GRACE_MULTIPLIER :: int where
  "ZOMBIE_GRACE_MULTIPLIER = 2"

record Config =
  port :: int
  stationAlertUrl :: string
  stationAlertKey :: string
  collectorApiKey :: string
  clusterId :: string
  clusterName :: string
  zombieCheckIntervalMs :: int
  alertQueueMaxSize :: int
  alertQueueTtlMs :: int

section \<open>The in-memory heartbeat store (store.ts)\<close>

record AgentStatus =
  agent_uuid :: string
  agent_name :: string
  mode :: HeartbeatMode
  uptime_seconds :: jsnum
  last_seen :: int
  healthy :: bool
  observation_mode :: bool
  consecutive_heartbeats :: nat

record HeartbeatEntry =
  agent_uuid :: string
  agent_name :: string
  mode :: HeartbeatMode
  uptime_seconds :: jsnum
  last_seen :: int
  first_seen :: int
  consecutive_heartbeats :: nat
  observation_mode :: bool
  previous_mode :: "HeartbeatMode option"
  previous_uptime :: "jsnum option"

text \<open>
  A subscriber callback is identified by a number. The source keeps, per agent id, a
  reference to a \<open>Set\<close> object of callbacks, and the cleanup closure returned by
  \<open>enableObservation\<close> captures that reference; so the \<open>Set\<close> objects live in an
  explicit heap (\<open>callbackSets\<close>, address to members in insertion order, \<open>nextSet\<close>
  the next fresh address) and \<open>observationCallbacks\<close> maps an agent id to an address.
  \<open>agents\<close> is the JavaScript \<open>Map\<close>, in insertion order.
\<close>

record HeartbeatStore =
  agents :: "(string \<times> HeartbeatEntry) list"
  observationCallbacks :: "(string \<times> nat) list"
  callbackSets :: "nat \<Rightarrow> nat list"
  nextSet :: nat

definition emptyStore :: HeartbeatStore where
  "emptyStore = \<lparr>agents = [], observationCallbacks = [], callbackSets = (\<lambda>_. []), nextSet = 0\<rparr>"

record RecordOutcome =
  store :: HeartbeatStore
  isNew :: bool
  restartDetected :: bool
  notified :: "(nat \<times> HeartbeatEntry) list"

text \<open>\<open>notifyObservers\<close>: the calls made, as (callback, entry) pairs in registration order.\<close>

definition notifyObservers :: "HeartbeatStore \<Rightarrow> string \<Rightarrow> HeartbeatEntry \<Rightarrow> (nat \<times> HeartbeatEntry) list" where
  "notifyObservers st agentUuid entry =
     (case map_of (observationCallbacks st) agentUuid of
        None \<Rightarrow> []
      | Some addr \<Rightarrow> map (\<lambda>cb. (cb, entry)) (callbackSets st addr))"

text \<open>\<open>recordHeartbeat\<close>; \<open>now\<close> is the value of \<open>new Date()\<close>.\<close>

definition recordHeartbeat ::
  "HeartbeatStore \<Rightarrow> string \<Rightarrow> string \<Rightarrow> HeartbeatMode \<Rightarrow> jsnum \<Rightarrow> int \<Rightarrow> RecordOutcome" where
  "recordHeartbeat st agentUuid agentName md uptimeSeconds now =
     (case map_of (agents st) agentUuid of
        Some existing \<Rightarrow>
          (let restart = jsGreater (HeartbeatEntry.uptime_seconds existing)
                             (jsAdd uptimeSeconds (Finite 10));
               updated = existing\<lparr>
                 previous_mode := Some (HeartbeatEntry.mode existing),
                 previous_uptime := Some (HeartbeatEntry.uptime_seconds existing),
                 HeartbeatEntry.mode := md,
                 HeartbeatEntry.uptime_seconds := uptimeSeconds,
                 HeartbeatEntry.last_seen := now,
                 HeartbeatEntry.consecutive_heartbeats :=
                   HeartbeatEntry.consecutive_heartbeats existing + 1\<rparr>
           in \<lparr>store = st\<lparr>agents := AList.update agentUuid updated (agents st)\<rparr>,
               isNew = False,
               restartDetected = restart,
               notified = notifyObservers st agentUuid updated\<rparr>)
      | None \<Rightarrow>
          (let entry = \<lparr>HeartbeatEntry.agent_uuid = agentUuid,
                 HeartbeatEntry.agent_name = agentName,
                 HeartbeatEntry.mode = md,
                 HeartbeatEntry.uptime_seconds = uptimeSeconds,
                 HeartbeatEntry.last_seen = now,
                 first_seen = now,
                 HeartbeatEntry.consecutive_heartbeats = 1,
                 HeartbeatEntry.observation_mode = False,
                 previous_mode = None,
                 previous_uptime = None\<rparr>
           in \<lparr>store = st\<lparr>agents := AList.update agentUuid entry (agents st)\<rparr>,
               isNew = True,
               restartDetected = False,
               notified = notifyObservers st agentUuid entry\<rparr>))"

text \<open>\<open>isHealthy(entry, now)\<close>.\<close>

definition isHealthy :: "HeartbeatEntry \<Rightarrow> int \<Rightarrow> bool" where
  "isHealthy entry now =
     (let interval = HEARTBEAT_INTERVALS (HeartbeatEntry.mode entry);
          deadline = interval * ZOMBIE_GRACE_MULTIPLIER;
          elapsed = now - HeartbeatEntry.last_seen entry
      in elapsed < deadline)"

text \<open>
  \<open>getUnhealthyAgents\<close>: the loop over \<open>this.agents.values()\<close> pushes every entry that
  fails \<open>isHealthy(entry, now)\<close>, in map order; \<open>now\<close> is read once before the loop.
\<close>

fun unhealthyLoop :: "int \<Rightarrow> HeartbeatEntry list \<Rightarrow> HeartbeatEntry list \<Rightarrow> HeartbeatEntry list" where
  "unhealthyLoop now [] unhealthy = unhealthy"
| "unhealthyLoop now (entry # rest) unhealthy =
     (if \<not> isHealthy entry now then unhealthyLoop now rest (unhealthy @ [entry])
      else unhealthyLoop now rest unhealthy)"

definition getUnhealthyAgents :: "HeartbeatStore \<Rightarrow> int \<Rightarrow> HeartbeatEntry list" where
  "getUnhealthyAgents st now = unhealthyLoop now (map snd (agents st)) []"

text \<open>
  \<open>entryToStatus\<close>, with the clock reading \<open>isHealthy(entry)\<close> defaults to; the ISO
  string of \<open>last_seen\<close> is kept as the time it renders.
\<close>

definition entryToStatus :: "HeartbeatEntry \<Rightarrow> int \<Rightarrow> AgentStatus" where
  "entryToStatus entry now =
     \<lparr>AgentStatus.agent_uuid = HeartbeatEntry.agent_uuid entry,
      AgentStatus.agent_name = HeartbeatEntry.agent_name entry,
      AgentStatus.mode = HeartbeatEntry.mode entry,
      AgentStatus.uptime_seconds = HeartbeatEntry.uptime_seconds entry,
      AgentStatus.last_seen = HeartbeatEntry.last_seen entry,
      healthy = isHealthy entry now,
      AgentStatus.observation_mode = HeartbeatEntry.observation_mode entry,
      AgentStatus.consecutive_heartbeats = HeartbeatEntry.consecutive_heartbeats entry\<rparr>"

definition getAgent :: "HeartbeatStore \<Rightarrow> string \<Rightarrow> int \<Rightarrow> AgentStatus option" where
  "getAgent st agentUuid now =
     (case map_of (agents st) agentUuid of
        None \<Rightarrow> None
      | Some entry \<Rightarrow> Some (entryToStatus entry now))"

definition getAllAgents :: "HeartbeatStore \<Rightarrow> int \<Rightarrow> AgentStatus list" where
  "getAllAgents st now = map (\<lambda>entry. entryToStatus entry now) (map snd (agents st))"

text \<open>\<open>removeAgent\<close>: the store after the call and whether a record existed.\<close>

definition removeAgent :: "HeartbeatStore \<Rightarrow> string \<Rightarrow> HeartbeatStore \<times> bool" where
  "removeAgent st agentUuid =
     (let existed = (map_of (agents st) agentUuid \<noteq> None)
      in (st\<lparr>agents := AList.delete agentUuid (agents st),
              observationCallbacks := AList.delete agentUuid (observationCallbacks st)\<rparr>,
          existed))"

text \<open>
  \<open>enableObservation\<close> returns the store and the cleanup closure, which is the triple
  it captures: the agent id, the address of the \<open>Set\<close> and the callback.
\<close>

record Cleanup =
  cleanupAgent :: string
  cleanupSet :: nat
  cleanupCallback :: nat

definition setObserved :: "bool \<Rightarrow> string \<Rightarrow> (string \<times> HeartbeatEntry) list \<Rightarrow> (string \<times> HeartbeatEntry) list" where
  "setObserved b agentUuid al =
     (case map_of al agentUuid of
        None \<Rightarrow> al
      | Some entry \<Rightarrow> AList.update agentUuid (entry\<lparr>HeartbeatEntry.observation_mode := b\<rparr>) al)"

definition enableObservation :: "HeartbeatStore \<Rightarrow> string \<Rightarrow> nat \<Rightarrow> HeartbeatStore \<times> Cleanup" where
  "enableObservation st agentUuid callback =
     (let (st1, addr) =
            (case map_of (observationCallbacks st) agentUuid of
               None \<Rightarrow>
                 (st\<lparr>observationCallbacks :=
                        AList.update agentUuid (nextSet st) (observationCallbacks st),
                      callbackSets := (callbackSets st)(nextSet st := []),
                      nextSet := nextSet st + 1\<rparr>,
                  nextSet st)
             | Some a \<Rightarrow> (st, a));
          members = callbackSets st1 addr;
          st2 = st1\<lparr>callbackSets := (callbackSets st1)
                  (addr := (if callback \<in> set members then members else members @ [callback]))\<rparr>;
          st3 = st2\<lparr>agents := setObserved True agentUuid (agents st2)\<rparr>
      in (st3, \<lparr>cleanupAgent = agentUuid, cleanupSet = addr, cleanupCallback = callback\<rparr>))"

definition runCleanup :: "HeartbeatStore \<Rightarrow> Cleanup \<Rightarrow> HeartbeatStore" where
  "runCleanup st c =
     (let members = removeAll (cleanupCallback c) (callbackSets st (cleanupSet c));
          st1 = st\<lparr>callbackSets := (callbackSets st)(cleanupSet c := members)\<rparr>
      in if members = [] then
           st1\<lparr>observationCallbacks := AList.delete (cleanupAgent c) (observationCallbacks st1),
               agents := setObserved False (cleanupAgent c) (agents st1)\<rparr>
         else st1)"

text \<open>
  A history of the store: reports, removals, subscriptions and calls of cleanup closures,
  applied one after the other (the store is touched by one synchronous call at a time).
\<close>

datatype StoreEvent =
    Report string string HeartbeatMode jsnum int
  | Remove string
  | Subscribe string nat
  | Unsubscribe Cleanup

fun applyStoreEvent :: "StoreEvent \<Rightarrow> HeartbeatStore \<Rightarrow> HeartbeatStore" where
  "applyStoreEvent (Report agentUuid agentName md uptimeSeconds now) st =
     store (recordHeartbeat st agentUuid agentName md uptimeSeconds now)"
| "applyStoreEvent (Remove agentUuid) st = fst (removeAgent st agentUuid)"
| "applyStoreEvent (Subscribe agentUuid callback) st = fst (enableObservation st agentUuid callback)"
| "applyStoreEvent (Unsubscribe c) st = runCleanup st c"

definition runStore :: "HeartbeatStore \<Rightarrow> StoreEvent list \<Rightarrow> HeartbeatStore" where
  "runStore st evs = fold applyStoreEvent evs st"

text \<open>The arrival times of the reports for one agent, in order.\<close>

fun arrivals :: "string \<Rightarrow> StoreEvent list \<Rightarrow> int list" where
  "arrivals a [] = []"
| "arrivals a (Report agentUuid agentName md uptimeSeconds now # evs) =
     (if agentUuid = a then now # arrivals a evs else arrivals a evs)"
| "arrivals a (ev # evs) = arrivals a evs"

text \<open>The two counters of an agent's record that the reports drive, when it has a record.\<close>

definition counters :: "string \<Rightarrow> HeartbeatStore \<Rightarrow> (nat \<times> int) option" where
  "counters a st =
     map_option (\<lambda>e. (HeartbeatEntry.consecutive_heartbeats e, HeartbeatEntry.last_seen e))
       (map_of (agents st) a)"

section \<open>The alert client (alert-client.ts)\<close>

datatype AlertType = AGENT_DEATH | EMERGENCY_MODE | RESTART_DETECTED | MODE_CHANGE

datatype Severity = critical | warning | info

text \<open>The \<open>details\<close> object, one shape per alert constructor of the source.\<close>

datatype AlertDetails =
    DeathDetails int int HeartbeatMode jsnum
  | EmergencyDetails "string option" jsnum
  | RestartDetails jsnum jsnum HeartbeatMode

record ClusterAlert =
  type :: AlertType
  agent_uuid :: string
  agent_name :: string
  cluster_id :: string
  severity :: Severity
  details :: AlertDetails
  timestamp :: int

record QueuedAlert =
  alert :: ClusterAlert
  queuedAt :: int
  attempts :: nat

text \<open>
  The client's fields, and the two effects it has on the outside: \<open>posted\<close> are the bodies
  of the \<open>fetch\<close> POSTs in the order made, \<open>timers\<close> the delays handed to \<open>setTimeout\<close>
  in the order made. The remote end is a parameter \<open>net\<close>: \<open>net k\<close> tells whether the
  \<open>k\<close>-th POST (from 0) ends with an ok response; a thrown error, a timeout and a non-ok
  status are all \<open>False\<close>.
\<close>

record AlertClient =
  queue :: "QueuedAlert list"
  isProcessing :: bool
  lastAlertByAgent :: "string \<rightharpoonup> AlertType \<times> int"
  timers :: "int list"
  posted :: "ClusterAlert list"

definition newAlertClient :: AlertClient where
  "newAlertClient =
     \<lparr>queue = [], isProcessing = False, lastAlertByAgent = Map.empty, timers = [], posted = []\<rparr>"

definition DEDUP_WINDOW_MS :: int where
  "DEDUP_WINDOW_MS = 60000"

definition isDuplicate :: "AlertClient \<Rightarrow> ClusterAlert \<Rightarrow> int \<Rightarrow> bool" where
  "isDuplicate c a now =
     (case lastAlertByAgent c (ClusterAlert.agent_uuid a) of
        None \<Rightarrow> False
      | Some (lastType, lastTimestamp) \<Rightarrow>
          (let withinWindow = (now - lastTimestamp < DEDUP_WINDOW_MS);
               sameType = (lastType = type a)
           in withinWindow \<and> sameType))"

definition attemptSend :: "(nat \<Rightarrow> bool) \<Rightarrow> AlertClient \<Rightarrow> ClusterAlert \<Rightarrow> bool \<times> AlertClient" where
  "attemptSend net c a = (net (length (posted c)), c\<lparr>posted := posted c @ [a]\<rparr>)"

text \<open>
  \<open>Math.min(5000 * Math.pow(2, this.queue[0]?.attempts || 0), 60000)\<close>; \<open>attempts\<close> is a
  counter that starts at 1 and is only incremented, so it is a natural number.
\<close>

definition backoffDelay :: "QueuedAlert list \<Rightarrow> int" where
  "backoffDelay q = min (5000 * 2 ^ (case q of [] \<Rightarrow> 0 | item # _ \<Rightarrow> attempts item)) 60000"

definition scheduleQueueProcessing :: "AlertClient \<Rightarrow> AlertClient" where
  "scheduleQueueProcessing c =
     (if isProcessing c \<or> queue c = [] then c
      else c\<lparr>timers := timers c @ [backoffDelay (queue c)]\<rparr>)"

definition queueAlert :: "Config \<Rightarrow> AlertClient \<Rightarrow> ClusterAlert \<Rightarrow> int \<Rightarrow> AlertClient" where
  "queueAlert cfg c a now =
     (let c1 = (if int (length (queue c)) \<ge> alertQueueMaxSize cfg
                then c\<lparr>queue := tl (queue c)\<rparr> else c);
          c2 = c1\<lparr>queue := queue c1 @ [\<lparr>alert = a, queuedAt = now, attempts = 1\<rparr>]\<rparr>
      in if \<not> isProcessing c2 then scheduleQueueProcessing c2 else c2)"

text \<open>
  \<open>sendAlert\<close>: \<open>now\<close> is the clock of the synchronous part (the duplicate check and the
  dedup record), \<open>later\<close> the clock when the alert is queued after the awaited POST.
\<close>

definition sendAlert ::
  "Config \<Rightarrow> (nat \<Rightarrow> bool) \<Rightarrow> AlertClient \<Rightarrow> ClusterAlert \<Rightarrow> int \<Rightarrow> int \<Rightarrow> AlertClient" where
  "sendAlert cfg net c a now later =
     (if isDuplicate c a now then c
      else
        (let c1 = c\<lparr>lastAlertByAgent :=
                      (lastAlertByAgent c)(ClusterAlert.agent_uuid a \<mapsto> (type a, now))\<rparr>
         in if stationAlertUrl cfg = [] \<or> stationAlertKey cfg = [] then c1
            else
              (let (success, c2) = attemptSend net c1 a
               in if \<not> success then queueAlert cfg c2 a later else c2)))"

text \<open>
  \<open>sendAlert\<close> is an async function with one awaited call, the \<open>fetch\<close> inside
  \<open>attemptSend\<close>. \<open>sendAlertBegin\<close> is its part up to there, with whether a POST is now
  pending (when it is not, \<open>sendAlert\<close> has returned); \<open>sendAlertEnd\<close> is its part after
  the POST has ended with \<open>success\<close>.
\<close>

definition sendAlertBegin :: "Config \<Rightarrow> AlertClient \<Rightarrow> ClusterAlert \<Rightarrow> int \<Rightarrow> bool \<times> AlertClient" where
  "sendAlertBegin cfg c a now =
     (if isDuplicate c a now then (False, c)
      else
        (let c1 = c\<lparr>lastAlertByAgent :=
                      (lastAlertByAgent c)(ClusterAlert.agent_uuid a \<mapsto> (type a, now))\<rparr>
         in if stationAlertUrl cfg = [] \<or> stationAlertKey cfg = [] then (False, c1)
            else (True, c1\<lparr>posted := posted c1 @ [a]\<rparr>)))"

definition sendAlertEnd :: "Config \<Rightarrow> AlertClient \<Rightarrow> ClusterAlert \<Rightarrow> bool \<Rightarrow> int \<Rightarrow> AlertClient" where
  "sendAlertEnd cfg c a success later = (if \<not> success then queueAlert cfg c a later else c)"

text \<open>
  The loop of \<open>processQueue\<close> over the queued items: the items kept so far
  (\<open>remaining\<close>) and the client, whose \<open>posted\<close> grows with every attempt.
\<close>

fun drainLoop ::
  "Config \<Rightarrow> (nat \<Rightarrow> bool) \<Rightarrow> int \<Rightarrow> QueuedAlert list \<Rightarrow> QueuedAlert list \<Rightarrow> AlertClient
     \<Rightarrow> QueuedAlert list \<times> AlertClient" where
  "drainLoop cfg net now [] remaining c = (remaining, c)"
| "drainLoop cfg net now (item # rest) remaining c =
     (if now - queuedAt item > alertQueueTtlMs cfg then drainLoop cfg net now rest remaining c
      else
        (let (success, c1) = attemptSend net c (alert item)
         in if \<not> success
            then drainLoop cfg net now rest (remaining @ [item\<lparr>attempts := attempts item + 1\<rparr>]) c1
            else drainLoop cfg net now rest remaining c1))"

definition processQueue :: "Config \<Rightarrow> (nat \<Rightarrow> bool) \<Rightarrow> AlertClient \<Rightarrow> int \<Rightarrow> AlertClient" where
  "processQueue cfg net c now =
     (if isProcessing c \<or> queue c = [] then c
      else
        (let c1 = c\<lparr>isProcessing := True\<rparr>;
             (remaining, c2) = drainLoop cfg net now (queue c1) [] c1;
             c3 = c2\<lparr>queue := remaining\<rparr>;
             c4 = (if length (queue c3) > 0 then scheduleQueueProcessing c3 else c3)
         in c4\<lparr>isProcessing := False\<rparr>))"

definition flushQueue :: "Config \<Rightarrow> (nat \<Rightarrow> bool) \<Rightarrow> AlertClient \<Rightarrow> int \<Rightarrow> AlertClient" where
  "flushQueue cfg net c now = processQueue cfg net c now"

text \<open>The three alert constructors; \<open>now\<close> stands for the ISO timestamp they take.\<close>

definition deathAlert :: "Config \<Rightarrow> HeartbeatEntry \<Rightarrow> int \<Rightarrow> int \<Rightarrow> ClusterAlert" where
  "deathAlert cfg entry missedIntervals now =
     \<lparr>type = AGENT_DEATH,
      ClusterAlert.agent_uuid = HeartbeatEntry.agent_uuid entry,
      ClusterAlert.agent_name = HeartbeatEntry.agent_name entry,
      cluster_id = clusterId cfg,
      severity = critical,
      details = DeathDetails missedIntervals (HeartbeatEntry.last_seen entry)
                  (HeartbeatEntry.mode entry) (HeartbeatEntry.uptime_seconds entry),
      timestamp = now\<rparr>"

definition alertAgentDeath ::
  "Config \<Rightarrow> (nat \<Rightarrow> bool) \<Rightarrow> AlertClient \<Rightarrow> HeartbeatEntry \<Rightarrow> int \<Rightarrow> int \<Rightarrow> int \<Rightarrow> AlertClient" where
  "alertAgentDeath cfg net c entry missedIntervals now later =
     sendAlert cfg net c (deathAlert cfg entry missedIntervals now) now later"

definition alertEmergencyMode ::
  "Config \<Rightarrow> (nat \<Rightarrow> bool) \<Rightarrow> AlertClient \<Rightarrow> HeartbeatEntry \<Rightarrow> string option \<Rightarrow> int \<Rightarrow> int \<Rightarrow> AlertClient" where
  "alertEmergencyMode cfg net c entry previousMode now later =
     sendAlert cfg net c
       \<lparr>type = EMERGENCY_MODE,
        ClusterAlert.agent_uuid = HeartbeatEntry.agent_uuid entry,
        ClusterAlert.agent_name = HeartbeatEntry.agent_name entry,
        cluster_id = clusterId cfg,
        severity = warning,
        details = EmergencyDetails previousMode (HeartbeatEntry.uptime_seconds entry),
        timestamp = now\<rparr> now later"

definition alertRestartDetected ::
  "Config \<Rightarrow> (nat \<Rightarrow> bool) \<Rightarrow> AlertClient \<Rightarrow> HeartbeatEntry \<Rightarrow> jsnum \<Rightarrow> jsnum \<Rightarrow> int \<Rightarrow> int \<Rightarrow> AlertClient" where
  "alertRestartDetected cfg net c entry previousUptime newUptime now later =
     sendAlert cfg net c
       \<lparr>type = RESTART_DETECTED,
        ClusterAlert.agent_uuid = HeartbeatEntry.agent_uuid entry,
        ClusterAlert.agent_name = HeartbeatEntry.agent_name entry,
        cluster_id = clusterId cfg,
        severity = info,
        details = RestartDetails previousUptime newUptime (HeartbeatEntry.mode entry),
        timestamp = now\<rparr> now later"

text \<open>
  A history of the client: calls of \<open>sendAlert\<close>, direct enqueues, and drain passes (a
  timer firing or \<open>flushQueue\<close>), each run to its end before the next starts.
\<close>

datatype ClientEvent =
    Notify ClusterAlert int int
  | Enqueue ClusterAlert int
  | Drain int

fun applyClientEvent :: "Config \<Rightarrow> (nat \<Rightarrow> bool) \<Rightarrow> ClientEvent \<Rightarrow> AlertClient \<Rightarrow> AlertClient" where
  "applyClientEvent cfg net (Notify a now later) c = sendAlert cfg net c a now later"
| "applyClientEvent cfg net (Enqueue a now) c = queueAlert cfg c a now"
| "applyClientEvent cfg net (Drain now) c = processQueue cfg net c now"

definition runClient :: "Config \<Rightarrow> (nat \<Rightarrow> bool) \<Rightarrow> AlertClient \<Rightarrow> ClientEvent list \<Rightarrow> AlertClient" where
  "runClient cfg net c evs = fold (applyClientEvent cfg net) evs c"

section \<open>The zombie detector (zombie-detector.ts)\<close>

text \<open>
  \<open>check\<close> is an async function that \<open>setInterval\<close> starts without awaiting it, and it
  awaits every alert it raises; so a pass runs in pieces, and reports, other uses of the
  alert client and the start of a later pass can come between two pieces. A piece ends
  where \<open>sendAlert\<close> awaits its POST; an alert that is dropped as a duplicate or only
  logged returns without a pending POST, and the pass goes on in the same piece.

  The list \<open>unhealthy\<close> of a pass holds the store's entry objects, which later reports
  change in place. A reference is the key the object is filed under, the object's
  present fields, and whether the store still holds the object (a removal detaches it;
  a later report of the same id creates another object).
\<close>

record EntryRef =
  refKey :: string
  refEntry :: HeartbeatEntry
  refLive :: bool

text \<open>
  A pass suspended at its awaited POST: the alert posted, the \<open>agent_uuid\<close> of the
  entry the loop is at, and the entries the loop has not reached.
\<close>

record PassTask =
  pendingAlert :: ClusterAlert
  pendingAgent :: string
  toVisit :: "EntryRef list"

text \<open>
  The process: the singleton store, the alert client, the detector's \<open>alertedAgents\<close>,
  the passes in flight, and the calls of \<open>alertClient.alertAgentDeath\<close> made so far, as
  the alerts they build (each is handed to the client in the step that records it).
\<close>

record Collector =
  heartbeatStore :: HeartbeatStore
  alertClient :: AlertClient
  alertedAgents :: "string set"
  inFlight :: "PassTask list"
  deathCalls :: "ClusterAlert list"

definition newCollector :: Collector where
  "newCollector =
     \<lparr>heartbeatStore = emptyStore, alertClient = newAlertClient, alertedAgents = {},
      inFlight = [], deathCalls = []\<rparr>"

text \<open>
  \<open>handleUnhealthyAgent\<close> up to the await inside \<open>sendAlert\<close>: whether a POST is pending,
  the alert, and the process. \<open>now\<close> is the clock of the piece that makes the call.
\<close>

definition handleUnhealthyAgent ::
  "Config \<Rightarrow> Collector \<Rightarrow> HeartbeatEntry \<Rightarrow> int \<Rightarrow> bool \<times> ClusterAlert \<times> Collector" where
  "handleUnhealthyAgent cfg sys entry now =
     (let elapsed = now - HeartbeatEntry.last_seen entry;
          interval = HEARTBEAT_INTERVALS (HeartbeatEntry.mode entry);
          missedIntervals = elapsed div interval;
          a = deathAlert cfg entry missedIntervals now;
          (pending, c1) = sendAlertBegin cfg (alertClient sys) a now
      in (pending, a, sys\<lparr>alertClient := c1, deathCalls := deathCalls sys @ [a]\<rparr>))"

text \<open>The second loop of \<open>check\<close>, over the statuses of all agents.\<close>

fun recoverLoop :: "AgentStatus list \<Rightarrow> Collector \<Rightarrow> Collector" where
  "recoverLoop [] sys = sys"
| "recoverLoop (agent # rest) sys =
     (if healthy agent \<and> AgentStatus.agent_uuid agent \<in> alertedAgents sys then
        recoverLoop rest (sys\<lparr>alertedAgents := alertedAgents sys - {AgentStatus.agent_uuid agent}\<rparr>)
      else recoverLoop rest sys)"

text \<open>
  The first loop of \<open>check\<close> from an entry on, run until an alert's POST is awaited (the
  pass is then in flight) or, when the entries are used up, through the second loop.
\<close>

fun passLoop :: "Config \<Rightarrow> int \<Rightarrow> EntryRef list \<Rightarrow> Collector \<Rightarrow> Collector" where
  "passLoop cfg now [] sys = recoverLoop (getAllAgents (heartbeatStore sys) now) sys"
| "passLoop cfg now (r # rest) sys =
     (if HeartbeatEntry.agent_uuid (refEntry r) \<notin> alertedAgents sys then
        (let (pending, a, sys1) = handleUnhealthyAgent cfg sys (refEntry r) now
         in if pending then
              sys1\<lparr>inFlight := inFlight sys1 @
                [\<lparr>pendingAlert = a, pendingAgent = HeartbeatEntry.agent_uuid (refEntry r),
                  toVisit = rest\<rparr>]\<rparr>
            else
              passLoop cfg now rest
                (sys1\<lparr>alertedAgents :=
                    insert (HeartbeatEntry.agent_uuid (refEntry r)) (alertedAgents sys1)\<rparr>))
      else passLoop cfg now rest sys)"

text \<open>The entries \<open>getUnhealthyAgents\<close> returns, as references.\<close>

definition unhealthyRefs :: "HeartbeatStore \<Rightarrow> int \<Rightarrow> EntryRef list" where
  "unhealthyRefs st now =
     map (\<lambda>(k, e). \<lparr>refKey = k, refEntry = e, refLive = True\<rparr>)
       (filter (\<lambda>(k, e). \<not> isHealthy e now) (agents st))"

text \<open>
  A reference after a call on the store: a live one shows the object's fields as they
  are now (the store never assigns \<open>agent_uuid\<close> after creation), or is detached when
  the store has dropped the object.
\<close>

definition refreshRef :: "HeartbeatStore \<Rightarrow> EntryRef \<Rightarrow> EntryRef" where
  "refreshRef st r =
     (if \<not> refLive r then r
      else case map_of (agents st) (refKey r) of
             None \<Rightarrow> r\<lparr>refLive := False\<rparr>
           | Some e \<Rightarrow>
               r\<lparr>refEntry := e\<lparr>HeartbeatEntry.agent_uuid :=
                                  HeartbeatEntry.agent_uuid (refEntry r)\<rparr>\<rparr>)"

text \<open>
  What happens in the process, one piece at a time: \<open>setInterval\<close> (or \<open>start\<close>) starts
  a pass; the POST awaited by the \<open>i\<close>-th pass in flight ends, with \<open>success\<close>, and the
  pass goes on; a call on the store; any other use of the alert client (the alerts of
  the heartbeat route, drain passes, and what follows their POSTs), as the change it
  makes to the client. \<open>now\<close> is the clock of the piece.
\<close>

datatype Event =
    ScanStart int
  | PostDone nat bool int
  | StoreCall StoreEvent
  | ClientCall "AlertClient \<Rightarrow> AlertClient"

fun collectorStep :: "Config \<Rightarrow> Event \<Rightarrow> Collector \<Rightarrow> Collector" where
  "collectorStep cfg (ScanStart now) sys =
     passLoop cfg now (unhealthyRefs (heartbeatStore sys) now) sys"
| "collectorStep cfg (PostDone i success now) sys =
     (if i < length (inFlight sys) then
        (let task = inFlight sys ! i;
             c1 = sendAlertEnd cfg (alertClient sys) (pendingAlert task) success now;
             sys1 = sys\<lparr>alertClient := c1,
                        inFlight := take i (inFlight sys) @ drop (Suc i) (inFlight sys),
                        alertedAgents := insert (pendingAgent task) (alertedAgents sys)\<rparr>
         in passLoop cfg now (toVisit task) sys1)
      else sys)"
| "collectorStep cfg (StoreCall ev) sys =
     (let st = applyStoreEvent ev (heartbeatStore sys)
      in sys\<lparr>heartbeatStore := st,
              inFlight := map (\<lambda>t. t\<lparr>toVisit := map (refreshRef st) (toVisit t)\<rparr>)
                            (inFlight sys)\<rparr>)"
| "collectorStep cfg (ClientCall f) sys = sys\<lparr>alertClient := f (alertClient sys)\<rparr>"

definition runCollector :: "Config \<Rightarrow> Collector \<Rightarrow> Event list \<Rightarrow> Collector" where
  "runCollector cfg sys evs = fold (collectorStep cfg) evs sys"

text \<open>
  What a piece of a pass finds of agent \<open>a\<close> at clock \<open>now\<close>: an entry of \<open>a\<close> among the
  unhealthy entries, a status of \<open>a\<close> with a true health verdict.
\<close>

definition seenUnhealthy :: "string \<Rightarrow> Collector \<Rightarrow> int \<Rightarrow> bool" where
  "seenUnhealthy a sys now =
     (a \<in> set (map HeartbeatEntry.agent_uuid (getUnhealthyAgents (heartbeatStore sys) now)))"

definition seenHealthy :: "string \<Rightarrow> Collector \<Rightarrow> int \<Rightarrow> bool" where
  "seenHealthy a sys now =
     (a \<in> set (map AgentStatus.agent_uuid
                 (filter healthy (getAllAgents (heartbeatStore sys) now))))"

text \<open>
  The pieces of passes during an outage of \<open>a\<close>: a pass starts only when no pass is in
  flight and finds \<open>a\<close> unhealthy, and no piece of a pass finds \<open>a\<close> healthy. The pieces
  of passes while \<open>a\<close> is well: a pass does not find \<open>a\<close> unhealthy when it starts, and
  every piece of a pass finds \<open>a\<close> healthy.
\<close>

definition outageEvent :: "string \<Rightarrow> Collector \<Rightarrow> Event \<Rightarrow> bool" where
  "outageEvent a sys ev =
     (case ev of
        ScanStart now \<Rightarrow> inFlight sys = [] \<and> seenUnhealthy a sys now \<and> \<not> seenHealthy a sys now
      | PostDone i success now \<Rightarrow> \<not> seenHealthy a sys now
      | StoreCall e \<Rightarrow> True
      | ClientCall f \<Rightarrow> True)"

definition healthyEvent :: "string \<Rightarrow> Collector \<Rightarrow> Event \<Rightarrow> bool" where
  "healthyEvent a sys ev =
     (case ev of
        ScanStart now \<Rightarrow> \<not> seenUnhealthy a sys now \<and> seenHealthy a sys now
      | PostDone i success now \<Rightarrow> seenHealthy a sys now
      | StoreCall e \<Rightarrow> True
      | ClientCall f \<Rightarrow> True)"

fun holdsAlong :: "(Collector \<Rightarrow> Event \<Rightarrow> bool) \<Rightarrow> Config \<Rightarrow> Collector \<Rightarrow> Event list \<Rightarrow> bool" where
  "holdsAlong ok cfg sys [] = True"
| "holdsAlong ok cfg sys (ev # evs) = (ok sys ev \<and> holdsAlong ok cfg (collectorStep cfg ev sys) evs)"

fun scanStarts :: "Event list \<Rightarrow> int list" where
  "scanStarts [] = []"
| "scanStarts (ScanStart now # evs) = now # scanStarts evs"
| "scanStarts (ev # evs) = scanStarts evs"

text \<open>The number of AGENT_DEATH alerts handed to the alert client for agent \<open>a\<close> so far.\<close>

definition callCount :: "string \<Rightarrow> Collector \<Rightarrow> nat" where
  "callCount a sys =
     length (filter (\<lambda>al. ClusterAlert.agent_uuid al = a) (deathCalls sys))"







section \<open>Sample data\<close>

text \<open>
  The concrete inputs of the instances below: a configuration with a station endpoint
  and a given queue size, the configuration \<open>loadConfig\<close> returns when neither
  \<open>STATION_ALERT_URL\<close> nor \<open>STATION_ALERT_KEY\<close> is set, a remote end that refuses
  every POST and one that accepts every POST, an entry of an agent, an AGENT_DEATH alert
  as \<open>alertAgentDeath\<close> builds it.
\<close>

definition stationConfig :: "int \<Rightarrow> Config" where
  "stationConfig maxSize =
     \<lparr>port = 8080,
      stationAlertUrl = ''https://station.example/api/alerts'', stationAlertKey = ''secret'',
      collectorApiKey = [], clusterId = ''cluster-1'', clusterName = ''cluster-1'',
      zombieCheckIntervalMs = 10000, alertQueueMaxSize = maxSize, alertQueueTtlMs = 300000\<rparr>"

definition localConfig :: Config where
  "localConfig =
     \<lparr>port = 8080, stationAlertUrl = [], stationAlertKey = [],
      collectorApiKey = [], clusterId = ''cluster-1'', clusterName = ''cluster-1'',
      zombieCheckIntervalMs = 10000, alertQueueMaxSize = 100, alertQueueTtlMs = 300000\<rparr>"

definition stationDown :: "nat \<Rightarrow> bool" where
  "stationDown k = False"

definition stationUp :: "nat \<Rightarrow> bool" where
  "stationUp k = True"

definition sampleEntry :: "string \<Rightarrow> HeartbeatMode \<Rightarrow> HeartbeatEntry" where
  "sampleEntry a md =
     \<lparr>HeartbeatEntry.agent_uuid = a, HeartbeatEntry.agent_name = ''worker'',
      HeartbeatEntry.mode = md, HeartbeatEntry.uptime_seconds = Finite 10,
      HeartbeatEntry.last_seen = 0, first_seen = 0,
      HeartbeatEntry.consecutive_heartbeats = 1, HeartbeatEntry.observation_mode = False,
      previous_mode = None, previous_uptime = None\<rparr>"

definition sampleDeathAlert :: "string \<Rightarrow> int \<Rightarrow> ClusterAlert" where
  "sampleDeathAlert a now =
     \<lparr>type = AGENT_DEATH, ClusterAlert.agent_uuid = a, ClusterAlert.agent_name = ''worker'',
      cluster_id = ''cluster-1'', severity = critical,
      details = DeathDetails 2 0 IDLE (Finite 10), timestamp = now\<rparr>"







text \<open>
  A pass that starts while the POST of the pass before it is still pending: the agent
  reports at 0, the pass at 61 s alerts, the pass at 71 s starts, and the POST ends at
  71.5 s.
\<close>

definition overlappingPasses :: "Event list" where
  "overlappingPasses =
     [StoreCall (Report ''agent-1'' ''worker'' IDLE (Finite 10) 0),
      ScanStart 61000, ScanStart 71000, PostDone 0 True 71500]"

text \<open>The invariant of the retry queue and of the timers scheduled for it.\<close>

definition queueInv :: "AlertClient \<Rightarrow> bool" where
  "queueInv c =
     ((\<forall>q \<in> set (queue c). 1 \<le> attempts q) \<and> (\<forall>d \<in> set (timers c). 10000 \<le> d))"

section \<open>Health verdict and restart detection\<close>

lemma unhealthyLoop_filter:
  "unhealthyLoop now es acc = acc @ filter (\<lambda>e. \<not> isHealthy e now) es"
  by (induction es arbitrary: acc) simp_all

lemma isHealthy_iff:
  "isHealthy e now =
     (now - HeartbeatEntry.last_seen e <
        2 * (case HeartbeatEntry.mode e of EMERGENCY \<Rightarrow> 5000 | IDLE \<Rightarrow> 30000 | SLEEP \<Rightarrow> 900000))"
  by (simp add: isHealthy_def HEARTBEAT_INTERVALS_def ZOMBIE_GRACE_MULTIPLIER_def
      split: HeartbeatMode.split)

text \<open>
  C3. For every entry and every read time \<open>now\<close> the health verdict is exactly
  \<open>now - lastSeenAt < 2 * interval(mode)\<close> with the intervals 5000, 30000 and 900000
  milliseconds for EMERGENCY, IDLE and SLEEP, and \<open>getUnhealthyAgents\<close> returns exactly
  the stored records (in map order) whose verdict is false at the time of the call. An
  IDLE agent seen 59 seconds ago is healthy, one seen 61 seconds ago is not.
\<close>

theorem health_verdict_exact:
  "isHealthy e now =
     (now - HeartbeatEntry.last_seen e <
        2 * (case HeartbeatEntry.mode e of EMERGENCY \<Rightarrow> 5000 | IDLE \<Rightarrow> 30000 | SLEEP \<Rightarrow> 900000))
   \<and> getUnhealthyAgents st now =
       filter (\<lambda>r. \<not> (now - HeartbeatEntry.last_seen r <
          2 * (case HeartbeatEntry.mode r of EMERGENCY \<Rightarrow> 5000 | IDLE \<Rightarrow> 30000 | SLEEP \<Rightarrow> 900000)))
         (map snd (agents st))
   \<and> isHealthy (e\<lparr>HeartbeatEntry.mode := IDLE, HeartbeatEntry.last_seen := now - 59000\<rparr>) now
   \<and> \<not> isHealthy (e\<lparr>HeartbeatEntry.mode := IDLE, HeartbeatEntry.last_seen := now - 61000\<rparr>) now"
proof -
  have "getUnhealthyAgents st now = filter (\<lambda>r. \<not> isHealthy r now) (map snd (agents st))"
    by (simp add: getUnhealthyAgents_def unhealthyLoop_filter)
  then show ?thesis
    by (simp add: isHealthy_iff)
qed

lemma roundHalfEven_int: "roundHalfEven (of_int m) = m"
  by (simp add: roundHalfEven_def)

lemma toDouble_int:
  assumes "\<bar>n\<bar> < 2 ^ 53"
  shows "toDouble (of_int n) = Finite (of_int n)"
proof -
  have small: "\<bar>(of_int n :: rat)\<bar> < 2 ^ 53"
    using assms by (metis of_int_abs of_int_less_numeral_power_cancel_iff)
  have "(of_int n :: rat) * 2 ^ j = of_int (n * 2 ^ j)" for j
    by simp
  then have "of_int (roundHalfEven ((of_int n :: rat) * 2 ^ j)) / (2 ^ j :: rat) = of_int n" for j
    by (simp only: roundHalfEven_int) simp
  with small show ?thesis
    by (simp add: toDouble_def Let_def)
qed

lemma jsAdd_safe:
  assumes "\<bar>u + 10\<bar> < 2 ^ 53"
  shows "jsAdd (Finite (of_int u)) (Finite 10) = Finite (of_int (u + 10))"
  using toDouble_int [OF assms] by simp

lemma restart_finite:
  assumes "map_of (agents st) a = Some e" and "HeartbeatEntry.uptime_seconds e = Finite s"
    and "\<bar>u + 10\<bar> < 2 ^ 53"
  shows "restartDetected (recordHeartbeat st a n m (Finite (of_int u)) now) = (10 < s - of_int u)"
proof -
  have "restartDetected (recordHeartbeat st a n m (Finite (of_int u)) now) =
      jsGreater (Finite s) (jsAdd (Finite (of_int u)) (Finite 10))"
    using assms(1,2) by (simp add: recordHeartbeat_def Let_def)
  also have "\<dots> = (of_int (u + 10) < s)"
    by (simp only: jsAdd_safe [OF assms(3)] jsGreater.simps)
  also have "\<dots> = (10 < s - of_int u)"
    by (simp add: algebra_simps)
  finally show ?thesis .
qed

lemma binadeUp_tie: "binadeUp 972 0 18014398509481998 = 2"
proof -
  have "(972::nat) = Suc (Suc (Suc 969))" by simp
  then show ?thesis by (simp only: binadeUp.simps) simp
qed

lemma floor_tie: "\<lfloor>(18014398509481998 :: rat) / 2 ^ 2\<rfloor> = 4503599627370499"
  by (rule floor_unique) simp_all

lemma roundHalfEven_tie: "roundHalfEven (18014398509481998 / 2 ^ 2) = 4503599627370500"
  unfolding roundHalfEven_def Let_def floor_tie by simp

text \<open>
  C4, as stated, fails: uptimes are JavaScript numbers and \<open>uptimeSeconds + 10\<close> is
  rounded. With a stored uptime of \<open>2^54 + 16\<close> and a reported uptime of \<open>2^54 + 4\<close>,
  both of them binary64 values, the uptime decreased by 12, yet the sum
  \<open>2^54 + 14\<close> rounds to \<open>2^54 + 16\<close> and \<open>restartDetected\<close> is false.
\<close>

theorem restart_missed_by_rounding:
  "(18014398509482000 :: rat) - 18014398509481988 = 12
   \<and> \<not> restartDetected (recordHeartbeat
         (store (recordHeartbeat emptyStore ''agent-1'' ''worker'' IDLE
                   (Finite 18014398509482000) 0))
         ''agent-1'' ''worker'' IDLE (Finite 18014398509481988) 1000)"
proof -
  have "toDouble 18014398509481998 = Finite 18014398509482000"
    unfolding toDouble_def Let_def binadeUp_tie roundHalfEven_tie by simp
  then have "jsAdd (Finite 18014398509481988) (Finite 10) = Finite 18014398509482000"
    by simp
  then show ?thesis
    by (simp add: recordHeartbeat_def emptyStore_def Let_def)
qed

text \<open>
  C4, amended. Let the reported uptime be an integer \<open>u\<close> such that \<open>u + 10\<close> is a safe
  integer (\<open>|u + 10| < 2^53\<close>). Then \<open>recordHeartbeat\<close> returns \<open>restartDetected = true\<close>
  exactly when a record for the agent exists and its stored uptime, a finite number,
  exceeds \<open>u\<close> by strictly more than 10: a stored integer uptime of \<open>u + 11\<close> or more
  gives true, one of \<open>u + 10\<close> gives false. The first report of an unknown agent gives
  false, whatever the number.
\<close>

theorem restart_detected_exact:
  assumes "\<bar>u + 10\<bar> < 2 ^ 53"
  shows "(\<forall>e s. map_of (agents st) a = Some e \<and> HeartbeatEntry.uptime_seconds e = Finite s \<longrightarrow>
           restartDetected (recordHeartbeat st a n m (Finite (of_int u)) now) = (10 < s - of_int u))
       \<and> (\<forall>e k. map_of (agents st) a = Some e \<and> HeartbeatEntry.uptime_seconds e = Finite (of_int k)
              \<and> u \<le> k - 11 \<longrightarrow>
           restartDetected (recordHeartbeat st a n m (Finite (of_int u)) now))
       \<and> (\<forall>e k. map_of (agents st) a = Some e \<and> HeartbeatEntry.uptime_seconds e = Finite (of_int k)
              \<and> u = k - 10 \<longrightarrow>
           \<not> restartDetected (recordHeartbeat st a n m (Finite (of_int u)) now))
       \<and> (map_of (agents st) a = None \<longrightarrow>
           \<not> restartDetected (recordHeartbeat st a n m x now)
           \<and> isNew (recordHeartbeat st a n m x now))"
proof -
  have new: "map_of (agents st) a = None \<longrightarrow>
      \<not> restartDetected (recordHeartbeat st a n m x now) \<and> isNew (recordHeartbeat st a n m x now)"
    by (simp add: recordHeartbeat_def Let_def)
  have "restartDetected (recordHeartbeat st a n m (Finite (of_int u)) now)"
    if "map_of (agents st) a = Some e" "HeartbeatEntry.uptime_seconds e = Finite (of_int k)"
      "u \<le> k - 11" for e k
  proof -
    from that(3) have "of_int u \<le> (of_int (k - 11) :: rat)"
      by (simp only: of_int_le_iff)
    then have "(10 :: rat) < of_int k - of_int u"
      by simp
    with restart_finite [OF that(1,2) assms] show ?thesis by simp
  qed
  moreover have "\<not> restartDetected (recordHeartbeat st a n m (Finite (of_int u)) now)"
    if "map_of (agents st) a = Some e" "HeartbeatEntry.uptime_seconds e = Finite (of_int k)"
      "u = k - 10" for e k
    using restart_finite [OF that(1,2) assms] that(3) by simp
  ultimately show ?thesis
    using new restart_finite [OF _ _ assms] by blast
qed

theorem restart_detected_exact_witness:
  "\<bar>(89 :: int) + 10\<bar> < 2 ^ 53 \<and> \<bar>(90 :: int) + 10\<bar> < 2 ^ 53
   \<and> restartDetected (recordHeartbeat
       (store (recordHeartbeat emptyStore ''agent-1'' ''worker'' IDLE (Finite 100) 0))
       ''agent-1'' ''worker'' IDLE (Finite 89) 1000)
   \<and> \<not> restartDetected (recordHeartbeat
       (store (recordHeartbeat emptyStore ''agent-1'' ''worker'' IDLE (Finite 100) 0))
       ''agent-1'' ''worker'' IDLE (Finite 90) 1000)
   \<and> \<not> restartDetected (recordHeartbeat emptyStore ''agent-1'' ''worker'' IDLE (Finite 100) 0)
   \<and> isNew (recordHeartbeat emptyStore ''agent-1'' ''worker'' IDLE (Finite 100) 0)"
proof -
  let ?st = "store (recordHeartbeat emptyStore ''agent-1'' ''worker'' IDLE (Finite 100) 0)"
  have b1: "\<bar>(89 :: int) + 10\<bar> < 2 ^ 53" and b2: "\<bar>(90 :: int) + 10\<bar> < 2 ^ 53"
    by simp_all
  obtain e where e: "map_of (agents ?st) ''agent-1'' = Some e"
      "HeartbeatEntry.uptime_seconds e = Finite (of_int 100)"
    by (simp add: recordHeartbeat_def emptyStore_def Let_def)
  have n: "map_of (agents emptyStore) ''agent-1'' = None"
    by (simp add: emptyStore_def)
  have "restartDetected (recordHeartbeat ?st ''agent-1'' ''worker'' IDLE (Finite (of_int 89)) 1000)"
    using restart_detected_exact [OF b1, of ?st "''agent-1''" "''worker''" IDLE 1000] e by simp
  moreover have "\<not> restartDetected (recordHeartbeat ?st ''agent-1'' ''worker'' IDLE (Finite (of_int 90)) 1000)"
    using restart_detected_exact [OF b2, of ?st "''agent-1''" "''worker''" IDLE 1000] e by simp
  moreover have "\<not> restartDetected (recordHeartbeat emptyStore ''agent-1'' ''worker'' IDLE (Finite 100) 0)
      \<and> isNew (recordHeartbeat emptyStore ''agent-1'' ''worker'' IDLE (Finite 100) 0)"
    using restart_detected_exact [OF b1, where st = emptyStore and a = "''agent-1''"
        and x = "Finite 100"] n
    by blast
  ultimately show ?thesis using b1 b2 by simp
qed

section \<open>Report counters\<close>

lemma map_of_setObserved:
  "map_of (setObserved b k al) a =
     (if k = a then map_option (\<lambda>e. e\<lparr>HeartbeatEntry.observation_mode := b\<rparr>) (map_of al a)
      else map_of al a)"
  by (cases "map_of al k") (auto simp: setObserved_def update_conv')

lemma counters_setObserved:
  "agents st' = setObserved b k (agents st) \<Longrightarrow> counters a st' = counters a st"
  by (cases "map_of (agents st) a") (simp_all add: counters_def map_of_setObserved)

lemma counters_cong:
  "agents st' = agents st \<Longrightarrow> counters a st' = counters a st"
  by (simp add: counters_def)

lemma counters_report_same:
  "counters a (store (recordHeartbeat st a n m up now)) =
     Some ((case counters a st of None \<Rightarrow> 1 | Some (c, t) \<Rightarrow> c + 1), now)"
  by (simp add: counters_def recordHeartbeat_def Let_def update_conv' split: option.splits)

lemma counters_report_other:
  "k \<noteq> a \<Longrightarrow> counters a (store (recordHeartbeat st k n m up now)) = counters a st"
  by (simp add: counters_def recordHeartbeat_def Let_def update_conv' split: option.splits)

lemma counters_remove_other:
  "k \<noteq> a \<Longrightarrow> counters a (fst (removeAgent st k)) = counters a st"
  by (simp add: counters_def removeAgent_def Let_def delete_conv')

lemma counters_subscribe:
  "counters a (fst (enableObservation st k cb)) = counters a st"
proof -
  have "agents (fst (enableObservation st k cb)) = setObserved True k (agents st)"
    by (simp add: enableObservation_def Let_def split: option.splits prod.splits)
  then show ?thesis by (rule counters_setObserved)
qed

lemma counters_cleanup:
  "counters a (runCleanup st c) = counters a st"
proof -
  have "agents (runCleanup st c) = agents st
      \<or> agents (runCleanup st c) = setObserved False (cleanupAgent c) (agents st)"
    by (simp add: runCleanup_def Let_def)
  then show ?thesis
    using counters_cong counters_setObserved by blast
qed

lemma arrivals_Cons: "arrivals a (ev # evs) = arrivals a [ev] @ arrivals a evs"
  by (cases ev) simp_all

lemma counters_step:
  "ev \<noteq> Remove a \<Longrightarrow>
   counters a (applyStoreEvent ev st) =
     (case arrivals a [ev] of
        [] \<Rightarrow> counters a st
      | t # ts \<Rightarrow> Some ((case counters a st of None \<Rightarrow> 0 | Some (c, u) \<Rightarrow> c) + 1, t))"
proof (cases ev)
  case (Report k n m up now)
  then show ?thesis
    by (cases "k = a")
      (auto simp: counters_report_same counters_report_other split: option.splits)
next
  case (Remove k)
  moreover assume "ev \<noteq> Remove a"
  ultimately show ?thesis by (simp add: counters_remove_other)
next
  case (Subscribe k cb)
  then show ?thesis by (simp add: counters_subscribe)
next
  case (Unsubscribe c)
  then show ?thesis by (simp add: counters_cleanup)
qed

lemma arrivals_single: "length (arrivals a [ev]) \<le> 1"
  by (cases ev) simp_all

lemma counters_run:
  "Remove a \<notin> set evs \<Longrightarrow>
   counters a (runStore st evs) =
     (if arrivals a evs = [] then counters a st
      else Some ((case counters a st of None \<Rightarrow> 0 | Some (c, t) \<Rightarrow> c) + length (arrivals a evs),
                 last (arrivals a evs)))"
proof (induction evs arbitrary: st)
  case Nil
  then show ?case by (simp add: runStore_def)
next
  case (Cons ev evs)
  have step: "runStore st (ev # evs) = runStore (applyStoreEvent ev st) evs"
    by (simp add: runStore_def)
  from Cons.prems have rest: "Remove a \<notin> set evs" and ev: "ev \<noteq> Remove a" by auto
  note IH = Cons.IH [OF rest, of "applyStoreEvent ev st"]
  show ?case
  proof (cases "arrivals a [ev]")
    case Nil
    with IH counters_step [OF ev, of st] show ?thesis
      unfolding step arrivals_Cons [of a ev evs] by simp
  next
    case (Cons t ts)
    with arrivals_single [of a ev] have ts: "ts = []" by simp
    from Cons ts IH counters_step [OF ev, of st] show ?thesis
      unfolding step arrivals_Cons [of a ev evs] by (simp split: option.splits)
  qed
qed

text \<open>
  C8. For every history of the store in which agent \<open>a\<close>, unknown at the start, is
  reported \<open>N \<ge> 1\<close> times and never removed (reports of other agents, removals of other
  agents, subscriptions and unsubscriptions may come in between), the stored
  \<open>consecutive_heartbeats\<close> of \<open>a\<close> is \<open>N\<close> and \<open>last_seen\<close> is the arrival time of
  the most recent report of \<open>a\<close>.
\<close>

theorem report_counter:
  assumes "map_of (agents st) a = None" and "Remove a \<notin> set evs" and "arrivals a evs \<noteq> []"
  shows "\<exists>e. map_of (agents (runStore st evs)) a = Some e
           \<and> HeartbeatEntry.consecutive_heartbeats e = length (arrivals a evs)
           \<and> HeartbeatEntry.last_seen e = last (arrivals a evs)"
proof -
  from assms(1) have "counters a st = None" by (simp add: counters_def)
  with counters_run [OF assms(2), of st] assms(3)
  have "counters a (runStore st evs) = Some (length (arrivals a evs), last (arrivals a evs))"
    by simp
  then show ?thesis by (auto simp: counters_def)
qed


theorem report_counter_witness:
  "map_of (agents emptyStore) ''agent-1'' = None
   \<and> Remove ''agent-1'' \<notin> set [Report ''agent-1'' ''worker'' IDLE (Finite 10) 1000, Subscribe ''agent-1'' 7,
         Report ''agent-2'' ''other'' SLEEP (Finite 5) 1500, Report ''agent-1'' ''worker'' EMERGENCY (Finite 40) 2000,
         Remove ''agent-2'', Report ''agent-1'' ''worker'' IDLE (Finite 70) 3000]
   \<and> (\<exists>e. map_of (agents (runStore emptyStore
         [Report ''agent-1'' ''worker'' IDLE (Finite 10) 1000, Subscribe ''agent-1'' 7,
          Report ''agent-2'' ''other'' SLEEP (Finite 5) 1500, Report ''agent-1'' ''worker'' EMERGENCY (Finite 40) 2000,
          Remove ''agent-2'', Report ''agent-1'' ''worker'' IDLE (Finite 70) 3000])) ''agent-1'' = Some e
        \<and> HeartbeatEntry.consecutive_heartbeats e = 3
        \<and> HeartbeatEntry.last_seen e = 3000)"
proof -
  let ?evs = "[Report ''agent-1'' ''worker'' IDLE (Finite 10) 1000, Subscribe ''agent-1'' 7,
         Report ''agent-2'' ''other'' SLEEP (Finite 5) 1500, Report ''agent-1'' ''worker'' EMERGENCY (Finite 40) 2000,
         Remove ''agent-2'', Report ''agent-1'' ''worker'' IDLE (Finite 70) 3000]"
  have h1: "map_of (agents emptyStore) ''agent-1'' = None"
    by (simp add: emptyStore_def)
  have h2: "Remove ''agent-1'' \<notin> set ?evs"
    by simp
  have h3: "arrivals ''agent-1'' ?evs \<noteq> []"
    by simp
  have h4: "length (arrivals ''agent-1'' ?evs) = 3" "last (arrivals ''agent-1'' ?evs) = 3000"
    by simp_all
  from report_counter [OF h1 h2 h3] have
    "\<exists>e. map_of (agents (runStore emptyStore ?evs)) ''agent-1'' = Some e
        \<and> HeartbeatEntry.consecutive_heartbeats e = 3
        \<and> HeartbeatEntry.last_seen e = 3000"
    unfolding h4 .
  with h1 h2 show ?thesis
    by blast
qed

section \<open>The observed flag\<close>

text \<open>
  C7. The claim is that a record is \<open>observed = true\<close> whenever a subscriber is registered
  for its agent, also when the record is created by a first report after the
  subscription. The code sets the flag in \<open>enableObservation\<close> only when the record
  already exists, and \<open>recordHeartbeat\<close> creates a record with
  \<open>observation_mode: false\<close>: after a subscription for an unknown agent and its first
  report, the subscriber is registered and notified, and the record's flag is false. In
  the other order (report, then subscription) the flag is true.
\<close>

theorem late_record_not_observed:
  "(let st1 = fst (enableObservation emptyStore ''agent-1'' 7);
        out = recordHeartbeat st1 ''agent-1'' ''worker'' IDLE (Finite 10) 1000
    in map fst (notified out) = [7]
       \<and> map_option HeartbeatEntry.observation_mode (map_of (agents (store out)) ''agent-1'')
           = Some False
       \<and> map_of (observationCallbacks (store out)) ''agent-1'' = Some 0
       \<and> callbackSets (store out) 0 = [7])
   \<and> (let st1 = store (recordHeartbeat emptyStore ''agent-1'' ''worker'' IDLE (Finite 10) 1000);
          st2 = fst (enableObservation st1 ''agent-1'' 7)
      in map_option HeartbeatEntry.observation_mode (map_of (agents st2) ''agent-1'') = Some True)"
  by (simp add: enableObservation_def recordHeartbeat_def notifyObservers_def setObserved_def
      emptyStore_def Let_def)


section \<open>The alert client: queue, backoff and deduplication\<close>

lemma drainLoop_queue:
  "queue (snd (drainLoop cfg net now items remaining c)) = queue c"
  by (induction cfg net now items remaining c rule: drainLoop.induct)
     (simp_all add: attemptSend_def)

lemma drainLoop_timers:
  "timers (snd (drainLoop cfg net now items remaining c)) = timers c"
  by (induction cfg net now items remaining c rule: drainLoop.induct)
     (simp_all add: attemptSend_def)

lemma drainLoop_isProcessing:
  "isProcessing (snd (drainLoop cfg net now items remaining c)) = isProcessing c"
  by (induction cfg net now items remaining c rule: drainLoop.induct)
     (simp_all add: attemptSend_def)

lemma drainLoop_lastAlert:
  "lastAlertByAgent (snd (drainLoop cfg net now items remaining c)) = lastAlertByAgent c"
  by (induction cfg net now items remaining c rule: drainLoop.induct)
     (simp_all add: attemptSend_def)

lemma drainLoop_length:
  "length (fst (drainLoop cfg net now items remaining c)) \<le> length remaining + length items"
  by (induction cfg net now items remaining c rule: drainLoop.induct)
     (simp_all add: attemptSend_def le_Suc_eq)

lemma processQueue_unfold:
  "processQueue cfg net c now =
     (if isProcessing c \<or> queue c = [] then c
      else (snd (drainLoop cfg net now (queue c) [] (c\<lparr>isProcessing := True\<rparr>)))
             \<lparr>queue := fst (drainLoop cfg net now (queue c) [] (c\<lparr>isProcessing := True\<rparr>)),
              isProcessing := False\<rparr>)"
  by (simp add: processQueue_def Let_def split_beta scheduleQueueProcessing_def
      drainLoop_isProcessing)

lemma processQueue_timers: "timers (processQueue cfg net c now) = timers c"
  by (simp add: processQueue_unfold drainLoop_timers)

lemma processQueue_length:
  "length (queue (processQueue cfg net c now)) \<le> length (queue c)"
  using drainLoop_length [of cfg net now "queue c" "[]" "c\<lparr>isProcessing := True\<rparr>"]
  by (simp add: processQueue_unfold)

lemma queueAlert_queue:
  "queue (queueAlert cfg c a now) =
     (if int (length (queue c)) \<ge> alertQueueMaxSize cfg then tl (queue c) else queue c)
       @ [\<lparr>alert = a, queuedAt = now, attempts = 1\<rparr>]"
  by (simp add: queueAlert_def Let_def scheduleQueueProcessing_def)

lemma queueAlert_bounded:
  assumes "1 \<le> alertQueueMaxSize cfg" and "int (length (queue c)) \<le> alertQueueMaxSize cfg"
  shows "int (length (queue (queueAlert cfg c a now))) \<le> alertQueueMaxSize cfg"
  using assms by (cases "queue c") (auto simp: queueAlert_queue)

lemma sendAlert_queue:
  "queue (sendAlert cfg net c a now later) = queue c
   \<or> queue (sendAlert cfg net c a now later) =
       queue (queueAlert cfg (snd (attemptSend net
         (c\<lparr>lastAlertByAgent := (lastAlertByAgent c)(ClusterAlert.agent_uuid a \<mapsto> (type a, now))\<rparr>) a)) a later)"
  by (simp add: sendAlert_def Let_def split_beta attemptSend_def)

lemma sendAlert_bounded:
  assumes "1 \<le> alertQueueMaxSize cfg" and "int (length (queue c)) \<le> alertQueueMaxSize cfg"
  shows "int (length (queue (sendAlert cfg net c a now later))) \<le> alertQueueMaxSize cfg"
proof -
  let ?c2 = "snd (attemptSend net
         (c\<lparr>lastAlertByAgent := (lastAlertByAgent c)(ClusterAlert.agent_uuid a \<mapsto> (type a, now))\<rparr>) a)"
  have "queue ?c2 = queue c" by (simp add: attemptSend_def)
  with assms have "int (length (queue (queueAlert cfg ?c2 a later))) \<le> alertQueueMaxSize cfg"
    by (intro queueAlert_bounded) simp_all
  with sendAlert_queue [of cfg net c a now later] assms(2) show ?thesis
    by auto
qed

lemma step_bounded:
  assumes "1 \<le> alertQueueMaxSize cfg" and "int (length (queue c)) \<le> alertQueueMaxSize cfg"
  shows "int (length (queue (applyClientEvent cfg net ev c))) \<le> alertQueueMaxSize cfg"
proof (cases ev)
  case (Notify a now later)
  with assms show ?thesis by (simp add: sendAlert_bounded)
next
  case (Enqueue a now)
  with assms show ?thesis by (simp add: queueAlert_bounded)
next
  case (Drain now)
  with assms processQueue_length [of cfg net c now] show ?thesis by simp
qed

lemma run_bounded:
  assumes "1 \<le> alertQueueMaxSize cfg" and "int (length (queue c)) \<le> alertQueueMaxSize cfg"
  shows "int (length (queue (runClient cfg net c evs))) \<le> alertQueueMaxSize cfg"
  using assms(2)
proof (induction evs arbitrary: c)
  case Nil
  then show ?case by (simp add: runClient_def)
next
  case (Cons ev evs)
  have "runClient cfg net c (ev # evs) = runClient cfg net (applyClientEvent cfg net ev c) evs"
    by (simp add: runClient_def)
  with Cons.IH [OF step_bounded [OF assms(1) Cons.prems]] show ?case by simp
qed

lemma backoffDelay_ge:
  assumes "q \<noteq> []" and "\<forall>item \<in> set q. 1 \<le> attempts item"
  shows "10000 \<le> backoffDelay q"
proof -
  from assms obtain item rest where q: "q = item # rest" and a: "1 \<le> attempts item"
    by (cases q) auto
  have "(2::int) ^ 1 \<le> 2 ^ attempts item"
    using a by (intro power_increasing) simp_all
  then show ?thesis
    by (simp add: backoffDelay_def q)
qed

lemma backoffDelay_le: "backoffDelay q \<le> 60000"
  by (simp add: backoffDelay_def)

lemma scheduleQueueProcessing_inv:
  "queueInv c \<Longrightarrow> queueInv (scheduleQueueProcessing c)"
  by (auto simp: queueInv_def scheduleQueueProcessing_def backoffDelay_ge)

lemma queueAlert_inv:
  assumes "queueInv c"
  shows "queueInv (queueAlert cfg c a now)"
proof -
  let ?c2 = "(if int (length (queue c)) \<ge> alertQueueMaxSize cfg
                then c\<lparr>queue := tl (queue c)\<rparr> else c)
             \<lparr>queue := (if int (length (queue c)) \<ge> alertQueueMaxSize cfg then tl (queue c) else queue c)
                 @ [\<lparr>alert = a, queuedAt = now, attempts = 1\<rparr>]\<rparr>"
  have "set (tl (queue c)) \<subseteq> set (queue c)"
    by (cases "queue c") auto
  with assms have "queueInv ?c2"
    by (auto simp: queueInv_def)
  moreover have "queueAlert cfg c a now = ?c2 \<or> queueAlert cfg c a now = scheduleQueueProcessing ?c2"
    by (simp add: queueAlert_def Let_def)
  ultimately show ?thesis
    using scheduleQueueProcessing_inv by metis
qed

lemma sendAlert_cases:
  "sendAlert cfg net c a now later = c
   \<or> sendAlert cfg net c a now later =
       c\<lparr>lastAlertByAgent := (lastAlertByAgent c)(ClusterAlert.agent_uuid a \<mapsto> (type a, now))\<rparr>
   \<or> sendAlert cfg net c a now later =
       c\<lparr>lastAlertByAgent := (lastAlertByAgent c)(ClusterAlert.agent_uuid a \<mapsto> (type a, now)),
         posted := posted c @ [a]\<rparr>
   \<or> sendAlert cfg net c a now later =
       queueAlert cfg
         (c\<lparr>lastAlertByAgent := (lastAlertByAgent c)(ClusterAlert.agent_uuid a \<mapsto> (type a, now)),
            posted := posted c @ [a]\<rparr>) a later"
  by (simp add: sendAlert_def Let_def attemptSend_def)

lemma sendAlert_inv:
  assumes "queueInv c"
  shows "queueInv (sendAlert cfg net c a now later)"
proof -
  have "queueInv (c\<lparr>lastAlertByAgent := m\<rparr>)" "queueInv (c\<lparr>lastAlertByAgent := m, posted := p\<rparr>)" for m p
    using assms by (simp_all add: queueInv_def)
  with assms queueAlert_inv sendAlert_cases [of cfg net c a now later] show ?thesis
    by metis
qed

lemma drainLoop_attempts:
  "\<forall>q \<in> set items. 1 \<le> attempts q \<Longrightarrow> \<forall>q \<in> set remaining. 1 \<le> attempts q \<Longrightarrow>
   \<forall>q \<in> set (fst (drainLoop cfg net now items remaining c)). 1 \<le> attempts q"
  by (induction cfg net now items remaining c rule: drainLoop.induct)
     (simp_all add: attemptSend_def)

lemma processQueue_inv:
  assumes "queueInv c"
  shows "queueInv (processQueue cfg net c now)"
proof -
  from assms have "\<forall>q \<in> set (fst (drainLoop cfg net now (queue c) [] (c\<lparr>isProcessing := True\<rparr>))). 1 \<le> attempts q"
    by (intro drainLoop_attempts) (simp_all add: queueInv_def)
  with assms show ?thesis
    by (simp add: processQueue_unfold queueInv_def drainLoop_timers)
qed

lemma step_inv: "queueInv c \<Longrightarrow> queueInv (applyClientEvent cfg net ev c)"
  by (cases ev) (simp_all add: sendAlert_inv queueAlert_inv processQueue_inv)

lemma run_inv: "queueInv c \<Longrightarrow> queueInv (runClient cfg net c evs)"
proof (induction evs arbitrary: c)
  case Nil
  then show ?case by (simp add: runClient_def)
next
  case (Cons ev evs)
  have "runClient cfg net c (ev # evs) = runClient cfg net (applyClientEvent cfg net ev c) evs"
    by (simp add: runClient_def)
  with Cons.IH [OF step_inv [OF Cons.prems]] show ?case by simp
qed

lemma drainLoop_remaining:
  "\<exists>kept. subseq kept items \<and>
     fst (drainLoop cfg net now items remaining c) =
       remaining @ map (\<lambda>q. q\<lparr>attempts := attempts q + 1\<rparr>) kept"
proof (induction cfg net now items remaining c rule: drainLoop.induct)
  case (1 cfg net now remaining c)
  then show ?case by simp
next
  case (2 cfg net now item rest remaining c)
  show ?case
  proof (cases "now - queuedAt item > alertQueueTtlMs cfg")
    case True
    with "2.IH"(1) obtain kept where "subseq kept rest"
      "fst (drainLoop cfg net now rest remaining c) =
         remaining @ map (\<lambda>q. q\<lparr>attempts := attempts q + 1\<rparr>) kept"
      by blast
    with True show ?thesis
      by (intro exI [of _ kept]) (simp add: list_emb_Cons)
  next
    case expired: False
    let ?c1 = "c\<lparr>posted := posted c @ [alert item]\<rparr>"
    show ?thesis
    proof (cases "net (length (posted c))")
      case True
      with expired "2.IH"(3) [of "(True, ?c1)" True ?c1] obtain kept where "subseq kept rest"
        "fst (drainLoop cfg net now rest remaining ?c1) =
           remaining @ map (\<lambda>q. q\<lparr>attempts := attempts q + 1\<rparr>) kept"
        by (auto simp: attemptSend_def)
      with True expired show ?thesis
        by (intro exI [of _ kept]) (simp add: attemptSend_def list_emb_Cons)
    next
      case False
      with expired "2.IH"(2) [of "(False, ?c1)" False ?c1] obtain kept where "subseq kept rest"
        "fst (drainLoop cfg net now rest (remaining @ [item\<lparr>attempts := attempts item + 1\<rparr>]) ?c1) =
           (remaining @ [item\<lparr>attempts := attempts item + 1\<rparr>])
             @ map (\<lambda>q. q\<lparr>attempts := attempts q + 1\<rparr>) kept"
        by (auto simp: attemptSend_def)
      with False expired show ?thesis
        by (intro exI [of _ "item # kept"]) (simp add: attemptSend_def)
    qed
  qed
qed


lemma newAlertClient_inv: "queueInv newAlertClient"
  by (simp add: queueInv_def newAlertClient_def)

text \<open>
  C6. With a configured maximum of at least 1, after any history of the client that
  starts from the empty queue (calls of \<open>sendAlert\<close>, direct enqueues and drain passes,
  in any order) the queue is no longer than the maximum. An enqueue on a queue at or
  above the maximum drops the head entry and appends the new entry at the tail; an
  enqueue below the maximum only appends.
\<close>

theorem queue_never_exceeds_max:
  assumes "1 \<le> alertQueueMaxSize cfg"
  shows "int (length (queue (runClient cfg net newAlertClient evs))) \<le> alertQueueMaxSize cfg
       \<and> (int (length (queue c)) \<ge> alertQueueMaxSize cfg \<longrightarrow>
            (\<exists>oldest rest. queue c = oldest # rest
               \<and> queue (queueAlert cfg c a now) =
                    rest @ [\<lparr>alert = a, queuedAt = now, attempts = 1\<rparr>]))
       \<and> (int (length (queue c)) < alertQueueMaxSize cfg \<longrightarrow>
            queue (queueAlert cfg c a now) =
              queue c @ [\<lparr>alert = a, queuedAt = now, attempts = 1\<rparr>])"
proof -
  have "int (length (queue newAlertClient)) \<le> alertQueueMaxSize cfg"
    using assms by (simp add: newAlertClient_def)
  from run_bounded [OF assms this]
  have bound: "int (length (queue (runClient cfg net newAlertClient evs))) \<le> alertQueueMaxSize cfg" .
  have full: "\<exists>oldest rest. queue c = oldest # rest
      \<and> queue (queueAlert cfg c a now) = rest @ [\<lparr>alert = a, queuedAt = now, attempts = 1\<rparr>]"
    if "int (length (queue c)) \<ge> alertQueueMaxSize cfg"
    using that assms by (cases "queue c") (simp_all add: queueAlert_queue)
  have room: "queue (queueAlert cfg c a now) = queue c @ [\<lparr>alert = a, queuedAt = now, attempts = 1\<rparr>]"
    if "int (length (queue c)) < alertQueueMaxSize cfg"
    using that by (simp add: queueAlert_queue)
  from bound full room show ?thesis by blast
qed

theorem queue_never_exceeds_max_witness:
  "1 \<le> alertQueueMaxSize (stationConfig 2)
   \<and> int (length (queue (runClient (stationConfig 2) stationDown newAlertClient
        [Enqueue (sampleDeathAlert ''agent-1'' 0) 0,
         Enqueue (sampleDeathAlert ''agent-2'' 1) 1,
         Enqueue (sampleDeathAlert ''agent-3'' 2) 2]))) \<le> 2
   \<and> map (\<lambda>q. ClusterAlert.agent_uuid (alert q))
        (queue (runClient (stationConfig 2) stationDown newAlertClient
           [Enqueue (sampleDeathAlert ''agent-1'' 0) 0,
            Enqueue (sampleDeathAlert ''agent-2'' 1) 1,
            Enqueue (sampleDeathAlert ''agent-3'' 2) 2])) = [''agent-2'', ''agent-3'']"
proof -
  have h: "1 \<le> alertQueueMaxSize (stationConfig 2)"
    by (simp add: stationConfig_def)
  have m: "alertQueueMaxSize (stationConfig 2) = 2"
    by (simp add: stationConfig_def)
  let ?evs = "[Enqueue (sampleDeathAlert ''agent-1'' 0) 0,
         Enqueue (sampleDeathAlert ''agent-2'' 1) 1,
         Enqueue (sampleDeathAlert ''agent-3'' 2) 2]"
  from queue_never_exceeds_max [OF h, of stationDown ?evs]
  have "int (length (queue (runClient (stationConfig 2) stationDown newAlertClient ?evs))) \<le> 2"
    unfolding m by blast
  moreover have "map (\<lambda>q. ClusterAlert.agent_uuid (alert q))
        (queue (runClient (stationConfig 2) stationDown newAlertClient ?evs)) = [''agent-2'', ''agent-3'']"
    by (simp add: runClient_def queueAlert_queue newAlertClient_def stationConfig_def sampleDeathAlert_def)
  ultimately show ?thesis using h by blast
qed

text \<open>
  C10. In every state the client reaches from its initial state, every queued entry
  has \<open>attempts \<ge> 1\<close>, every delay handed to \<open>setTimeout\<close> is at least 10000 ms (so
  never the nominal 5000 ms), and the delay computed from the head of a non-empty queue
  is at least 10000 ms. An entry enters the queue with \<open>attempts = 1\<close>, and a drain pass
  leaves the queue as it was or keeps a subsequence of it with every kept entry's
  \<open>attempts\<close> incremented by one.
\<close>

theorem attempts_at_least_one:
  "(\<forall>q \<in> set (queue (runClient cfg net newAlertClient evs)). 1 \<le> attempts q)
   \<and> (\<forall>d \<in> set (timers (runClient cfg net newAlertClient evs)). 10000 \<le> d \<and> d \<noteq> 5000)
   \<and> (queue (runClient cfg net newAlertClient evs) \<noteq> [] \<longrightarrow>
        10000 \<le> backoffDelay (queue (runClient cfg net newAlertClient evs)))
   \<and> attempts (last (queue (queueAlert cfg c a now))) = 1
   \<and> (queue (processQueue cfg net c now) = queue c
       \<or> (\<exists>kept. subseq kept (queue c)
             \<and> queue (processQueue cfg net c now) =
                  map (\<lambda>q. q\<lparr>attempts := attempts q + 1\<rparr>) kept))"
proof -
  let ?r = "runClient cfg net newAlertClient evs"
  have inv: "queueInv ?r"
    by (rule run_inv [OF newAlertClient_inv])
  then have a: "\<forall>q \<in> set (queue ?r). 1 \<le> attempts q"
    and t: "\<forall>d \<in> set (timers ?r). 10000 \<le> d \<and> d \<noteq> 5000"
    by (auto simp: queueInv_def)
  from a have b: "queue ?r \<noteq> [] \<longrightarrow> 10000 \<le> backoffDelay (queue ?r)"
    by (simp add: backoffDelay_ge)
  have e: "attempts (last (queue (queueAlert cfg c a now))) = 1"
    by (simp add: queueAlert_queue)
  have d: "queue (processQueue cfg net c now) = queue c
       \<or> (\<exists>kept. subseq kept (queue c)
             \<and> queue (processQueue cfg net c now) =
                  map (\<lambda>q. q\<lparr>attempts := attempts q + 1\<rparr>) kept)"
    using drainLoop_remaining [of "queue c" cfg net now "[]" "c\<lparr>isProcessing := True\<rparr>"]
    by (simp add: processQueue_unfold)
  from a t b e d show ?thesis by blast
qed


theorem attempts_at_least_one_witness:
  "map attempts (queue (runClient (stationConfig 100) stationDown newAlertClient
      [Notify (sampleDeathAlert ''agent-1'' 0) 0 5, Drain 10005,
       Notify (sampleDeathAlert ''agent-2'' 20000) 20000 20005])) = [2, 1]
   \<and> timers (runClient (stationConfig 100) stationDown newAlertClient
      [Notify (sampleDeathAlert ''agent-1'' 0) 0 5, Drain 10005,
       Notify (sampleDeathAlert ''agent-2'' 20000) 20000 20005]) = [10000, 20000]
   \<and> 10000 \<le> backoffDelay (queue (runClient (stationConfig 100) stationDown newAlertClient
      [Notify (sampleDeathAlert ''agent-1'' 0) 0 5, Drain 10005,
       Notify (sampleDeathAlert ''agent-2'' 20000) 20000 20005]))"
proof -
  let ?r = "runClient (stationConfig 100) stationDown newAlertClient
      [Notify (sampleDeathAlert ''agent-1'' 0) 0 5, Drain 10005,
       Notify (sampleDeathAlert ''agent-2'' 20000) 20000 20005]"
  have q: "map attempts (queue ?r) = [2, 1]" and t: "timers ?r = [10000, 20000]"
    by (simp_all add: runClient_def sendAlert_def isDuplicate_def attemptSend_def queueAlert_def
        scheduleQueueProcessing_def backoffDelay_def processQueue_def Let_def
        stationConfig_def stationDown_def sampleDeathAlert_def newAlertClient_def DEDUP_WINDOW_MS_def)
  from q have "queue ?r \<noteq> []" by auto
  with attempts_at_least_one [of "stationConfig 100" stationDown
      "[Notify (sampleDeathAlert ''agent-1'' 0) 0 5, Drain 10005,
        Notify (sampleDeathAlert ''agent-2'' 20000) 20000 20005]"]
  have "10000 \<le> backoffDelay (queue ?r)" by blast
  with q t show ?thesis by blast
qed

lemma sendAlert_duplicate: "isDuplicate c a now \<Longrightarrow> sendAlert cfg net c a now later = c"
  by (simp add: sendAlert_def)

text \<open>
  C9. The claim is that a drain pass which ends with a non-empty queue schedules the next
  drain after \<open>min(5000 * 2^attempts, 60000)\<close> ms. The code does not: \<open>processQueue\<close>
  calls \<open>scheduleQueueProcessing\<close> while \<open>isProcessing\<close> is still true, and
  \<open>scheduleQueueProcessing\<close> returns at once when \<open>isProcessing\<close> is true. So no drain
  pass ever adds a timer. At the concrete input, an alert that failed to send is queued
  (one timer of 10000 ms); when that timer fires the POST fails again, the entry stays
  with \<open>attempts = 2\<close>, and no further timer exists.
\<close>

theorem drain_never_reschedules:
  "timers (processQueue cfg net c now) = timers c
   \<and> (let c0 = sendAlert (stationConfig 100) stationDown newAlertClient
                 (sampleDeathAlert ''agent-1'' 0) 0 5;
           c1 = processQueue (stationConfig 100) stationDown c0 10005
       in map attempts (queue c0) = [1] \<and> timers c0 = [10000]
          \<and> map attempts (queue c1) = [2] \<and> timers c1 = [10000]
          \<and> length (posted c1) = 2)"
proof -
  have "timers (processQueue cfg net c now) = timers c"
    by (rule processQueue_timers)
  moreover have "let c0 = sendAlert (stationConfig 100) stationDown newAlertClient
                 (sampleDeathAlert ''agent-1'' 0) 0 5;
           c1 = processQueue (stationConfig 100) stationDown c0 10005
       in map attempts (queue c0) = [1] \<and> timers c0 = [10000]
          \<and> map attempts (queue c1) = [2] \<and> timers c1 = [10000]
          \<and> length (posted c1) = 2"
    by (simp add: sendAlert_def isDuplicate_def attemptSend_def queueAlert_def
        scheduleQueueProcessing_def backoffDelay_def processQueue_def Let_def
        stationConfig_def stationDown_def sampleDeathAlert_def newAlertClient_def)
  ultimately show ?thesis by blast
qed

text \<open>
  C1. The claim is that an alert of a kind already sent for the agent within the last 60
  seconds is a silent no-op, also when alerts of other kinds for that agent came in
  between. The code keeps one dedup record per agent, the last alert, so an alert of
  another kind overwrites it: EMERGENCY_MODE at 0 ms, RESTART_DETECTED at 1000 ms and
  EMERGENCY_MODE at 2000 ms for one agent are all three POSTed. Without the alert in
  between, the second EMERGENCY_MODE leaves the client unchanged.
\<close>

theorem interleaved_kind_resent:
  "(let cfg = stationConfig 100;
        e = sampleEntry ''agent-1'' EMERGENCY;
        c1 = alertEmergencyMode cfg stationUp newAlertClient e (Some ''IDLE'') 0 0;
        c2 = alertRestartDetected cfg stationUp c1 e (Finite 500) (Finite 10) 1000 1000;
        c3 = alertEmergencyMode cfg stationUp c2 e (Some ''IDLE'') 2000 2000
    in map (\<lambda>a. (type a, ClusterAlert.agent_uuid a, timestamp a)) (posted c3) =
         [(EMERGENCY_MODE, ''agent-1'', 0), (RESTART_DETECTED, ''agent-1'', 1000),
          (EMERGENCY_MODE, ''agent-1'', 2000)]
       \<and> alertEmergencyMode cfg stationUp c1 e (Some ''IDLE'') 2000 2000 = c1)"
  by (simp add: alertEmergencyMode_def alertRestartDetected_def sendAlert_def isDuplicate_def
      attemptSend_def Let_def stationConfig_def stationUp_def sampleEntry_def
      newAlertClient_def DEDUP_WINDOW_MS_def)

text \<open>
  C2, as stated, fails: with no station URL configured, a non-duplicate alert is not
  appended to the retry queue.
\<close>

theorem no_station_not_queued:
  "stationAlertUrl localConfig = []
   \<and> \<not> isDuplicate newAlertClient (sampleDeathAlert ''agent-1'' 0) 0
   \<and> queue (sendAlert localConfig stationDown newAlertClient
        (sampleDeathAlert ''agent-1'' 0) 0 5) = []"
  by (simp add: sendAlert_def isDuplicate_def localConfig_def newAlertClient_def)

text \<open>
  C2, amended. For every non-duplicate call of \<open>sendAlert\<close> made when the station URL
  or the station key is empty, the only change to the client is the dedup record of the
  alert's agent: no POST is made, the retry queue and the timers are unchanged.
\<close>

theorem no_station_log_only:
  assumes "stationAlertUrl cfg = [] \<or> stationAlertKey cfg = []" and "\<not> isDuplicate c a now"
  shows "sendAlert cfg net c a now later =
     c\<lparr>lastAlertByAgent := (lastAlertByAgent c)(ClusterAlert.agent_uuid a \<mapsto> (type a, now))\<rparr>"
  using assms by (simp add: sendAlert_def Let_def)

theorem no_station_log_only_witness:
  "(stationAlertUrl localConfig = [] \<or> stationAlertKey localConfig = [])
   \<and> \<not> isDuplicate newAlertClient (sampleDeathAlert ''agent-1'' 0) 0
   \<and> queue (sendAlert localConfig stationDown newAlertClient
        (sampleDeathAlert ''agent-1'' 0) 0 5) = []
   \<and> posted (sendAlert localConfig stationDown newAlertClient
        (sampleDeathAlert ''agent-1'' 0) 0 5) = []
   \<and> timers (sendAlert localConfig stationDown newAlertClient
        (sampleDeathAlert ''agent-1'' 0) 0 5) = []
   \<and> lastAlertByAgent (sendAlert localConfig stationDown newAlertClient
        (sampleDeathAlert ''agent-1'' 0) 0 5) ''agent-1'' = Some (AGENT_DEATH, 0)"
proof -
  have h1: "stationAlertUrl localConfig = [] \<or> stationAlertKey localConfig = []"
    by (simp add: localConfig_def)
  have h2: "\<not> isDuplicate newAlertClient (sampleDeathAlert ''agent-1'' 0) 0"
    by (simp add: isDuplicate_def newAlertClient_def)
  show ?thesis
    unfolding no_station_log_only [OF h1 h2]
    using h1 h2 by (simp add: newAlertClient_def sampleDeathAlert_def)
qed

section \<open>The scanner: death alerts and outages\<close>

lemma sendAlert_split:
  "sendAlert cfg net c a now later =
     (case sendAlertBegin cfg c a now of
        (pending, c1) \<Rightarrow>
          if pending then sendAlertEnd cfg c1 a (net (length (posted c))) later else c1)"
  by (simp add: sendAlert_def sendAlertBegin_def sendAlertEnd_def attemptSend_def Let_def)




lemma recoverLoop_store: "heartbeatStore (recoverLoop ss sys) = heartbeatStore sys"
  by (induction ss sys rule: recoverLoop.induct) simp_all

lemma handle_fields:
  assumes "handleUnhealthyAgent cfg sys e now = (pending, al, sys1)"
  shows "alertedAgents sys1 = alertedAgents sys" and "inFlight sys1 = inFlight sys"
    and "heartbeatStore sys1 = heartbeatStore sys" and "deathCalls sys1 = deathCalls sys @ [al]"
    and "ClusterAlert.agent_uuid al = HeartbeatEntry.agent_uuid e" and "type al = AGENT_DEATH"
  using assms
  by (auto simp: handleUnhealthyAgent_def Let_def deathAlert_def split: prod.splits)


lemma callCount_cong: "deathCalls sys1 = deathCalls sys \<Longrightarrow> callCount a sys1 = callCount a sys"
  by (simp add: callCount_def)

lemma passLoop_store: "heartbeatStore (passLoop cfg now refs sys) = heartbeatStore sys"
proof (induction cfg now refs sys rule: passLoop.induct)
  case (1 cfg now sys)
  then show ?case by (simp add: recoverLoop_store)
next
  case (2 cfg now r rest sys)
  obtain pending al sys1 where h: "handleUnhealthyAgent cfg sys (refEntry r) now = (pending, al, sys1)"
    by (cases "handleUnhealthyAgent cfg sys (refEntry r) now") auto
  show ?case
  proof (cases "HeartbeatEntry.agent_uuid (refEntry r) \<in> alertedAgents sys")
    case True
    with "2.IH"(2) show ?thesis by simp
  next
    case False
    with "2.IH"(1) [OF False h [symmetric] refl] h handle_fields(3) [OF h] show ?thesis
      by (cases pending) simp_all
  qed
qed





























lemmas evalCollector =
  runCollector_def collectorStep.simps passLoop.simps recoverLoop.simps unhealthyRefs_def
  handleUnhealthyAgent_def deathAlert_def sendAlertBegin_def sendAlertEnd_def queueAlert_def
  scheduleQueueProcessing_def backoffDelay_def isDuplicate_def DEDUP_WINDOW_MS_def
  recordHeartbeat_def notifyObservers_def emptyStore_def newCollector_def newAlertClient_def
  stationConfig_def getAllAgents_def entryToStatus_def isHealthy_def HEARTBEAT_INTERVALS_def
  ZOMBIE_GRACE_MULTIPLIER_def Let_def refreshRef_def callCount_def seenHealthy_def
  seenUnhealthy_def getUnhealthyAgents_def outageEvent_def healthyEvent_def
  applyStoreEvent.simps holdsAlong.simps scanStarts.simps


text \<open>
  Passes that overlap hand over two alerts for one outage: the pass at 71 s starts while
  the POST of the pass at 61 s is pending, the id is not yet in the suppression set, and
  \<open>alertAgentDeath\<close> is called again (the client drops the second call as a duplicate).
\<close>

lemma overlapping_passes_call_twice:
  "callCount ''agent-1'' (runCollector (stationConfig 100) newCollector overlappingPasses) = 2
   \<and> length (posted (alertClient
        (runCollector (stationConfig 100) newCollector overlappingPasses))) = 1
   \<and> inFlight (runCollector (stationConfig 100) newCollector overlappingPasses) = []"
  by (simp add: evalCollector overlappingPasses_def)



end
